theory Spec2Isabelle
  imports Complex_Main "HOL-Library.Sublist"
begin

section \<open>Conventions\<close>

text \<open>
  A JavaScript string is represented by the bytes of its UTF-8 encoding, as a HOL
  \<open>string\<close>. The source only compares strings, concatenates them and scans them for
  ASCII characters, quotes, digits and white space, and all of these read the same on the
  encoded bytes. \<open>undefined\<close> is \<open>None\<close>. \<open>Date.now()\<close> is an integer number of
  milliseconds.
\<close>

section \<open>The debug server: values thrown, requests and responses\<close>

text \<open>
  A thrown value is either an \<open>Error\<close> instance with its message, or some other value,
  kept as the text \<open>String(value)\<close> gives. The stack trace of an \<open>Error\<close> is not
  modelled.
\<close>

datatype thrown = Error (message: string) | Thrown string

text \<open>
  A request as handed to the global \<open>fetch\<close>: the URL, the method, the headers in the
  order of the object literal, and the form parameters of a \<open>URLSearchParams\<close> body.
\<close>

record request =
  req_url :: string
  req_method :: string
  req_headers :: "(string \<times> string) list"
  req_body :: "(string \<times> string) list"

text \<open>
  What awaiting \<open>fetch\<close> gives: the promise rejects, or it resolves to a response with
  its status, its status text and what awaiting \<open>response.text()\<close> gives.
\<close>

record response =
  status :: nat
  statusText :: string
  text_result :: "thrown + string"

datatype net_outcome = Rejected thrown | Responded response

text \<open>\<open>response.ok\<close> is true for the statuses 200 to 299 (the Fetch standard).\<close>

definition ok :: "response \<Rightarrow> bool" where
  "ok r = (200 \<le> status r \<and> status r \<le> 299)"

text \<open>A number in a template literal: the decimal digits of a natural number.\<close>

definition digit_char :: "nat \<Rightarrow> char" where
  "digit_char d = ''0123456789'' ! d"

fun number_to_string :: "nat \<Rightarrow> string" where
  "number_to_string n =
     (if n < 10 then [digit_char n]
      else number_to_string (n div 10) @ [digit_char (n mod 10)])"

declare number_to_string.simps [simp del]

subsection \<open>The pool of User-Agent strings\<close>

definition USER_AGENTS :: "string list" where
  "USER_AGENTS =
    [''Mozilla/5.0 (Windows NT 10.0; Win64; x64) AppleWebKit/537.36 (KHTML, like Gecko) Chrome/125.0.0.0 Safari/537.36'',
     ''Mozilla/5.0 (Windows NT 10.0; Win64; x64) AppleWebKit/537.36 (KHTML, like Gecko) Chrome/124.0.0.0 Safari/537.36 Edg/124.0.0.0'',
     ''Mozilla/5.0 (Windows NT 10.0; Win64; x64; rv:126.0) Gecko/20100101 Firefox/126.0'',
     ''Mozilla/5.0 (Macintosh; Intel Mac OS X 10_15_7) AppleWebKit/537.36 (KHTML, like Gecko) Chrome/125.0.0.0 Safari/537.36'',
     ''Mozilla/5.0 (Macintosh; Intel Mac OS X 10_15_7) AppleWebKit/605.1.15 (KHTML, like Gecko) Version/17.5 Safari/605.1.15'',
     ''Mozilla/5.0 (Macintosh; Intel Mac OS X 10.15; rv:126.0) Gecko/20100101 Firefox/126.0'',
     ''Mozilla/5.0 (X11; Linux x86_64) AppleWebKit/537.36 (KHTML, like Gecko) Chrome/125.0.0.0 Safari/537.36'',
     ''Mozilla/5.0 (X11; Ubuntu; Linux x86_64; rv:126.0) Gecko/20100101 Firefox/126.0'',
     ''Mozilla/5.0 (Windows NT 10.0; Win64; x64) AppleWebKit/537.36 (KHTML, like Gecko) Chrome/123.0.0.0 Safari/537.36'',
     ''Mozilla/5.0 (Macintosh; Intel Mac OS X 10_15_7) AppleWebKit/537.36 (KHTML, like Gecko) Chrome/124.0.0.0 Safari/537.36'']"

text \<open>
  \<open>USER_AGENTS[Math.floor(Math.random() * USER_AGENTS.length)]\<close>, with the value of
  \<open>Math.random()\<close> as the argument. An index outside the array reads \<open>undefined\<close>,
  which a header value or a template literal turns into the text \<open>undefined\<close>
  (\<open>js_string\<close>).
\<close>

definition getRandomUserAgent :: "rat \<Rightarrow> string option" where
  "getRandomUserAgent rnd =
     (let i = \<lfloor>rnd * of_nat (length USER_AGENTS)\<rfloor>
      in if 0 \<le> i \<and> i < int (length USER_AGENTS) then Some (USER_AGENTS ! nat i) else None)"

definition js_string :: "string option \<Rightarrow> string" where
  "js_string v = (case v of Some s \<Rightarrow> s | None \<Rightarrow> ''undefined'')"

subsection \<open>The HTML cache and \<open>fetchHtml\<close>\<close>

record cache_entry =
  html :: string
  timestamp :: int

definition CACHE_TTL :: int where
  "CACHE_TTL = 5 * 60 * 1000"

text \<open>
  The state of the server: the module-level \<open>htmlCache\<close>, and two logs that only
  observe it: the requests handed to \<open>fetch\<close> and the pages handed to a target's
  parser, each in order.
\<close>

record world =
  htmlCache :: "string \<rightharpoonup> cache_entry"
  sent :: "request list"
  parsed :: "string list"

text \<open>
  What one call of \<open>fetchHtml\<close> reads from outside: the clock at the freshness test
  (line 52) and at the store (line 71), \<open>Math.random()\<close>, and the network.
\<close>

record fetch_env =
  now_check :: int
  now_store :: int
  random :: rat
  network :: "request \<Rightarrow> net_outcome"

definition html_request :: "fetch_env \<Rightarrow> string \<Rightarrow> request" where
  "html_request env url =
     \<lparr>req_url = url, req_method = ''GET'',
      req_headers =
        [(''User-Agent'', js_string (getRandomUserAgent (random env))),
         (''Accept'', ''text/html,application/xhtml+xml,application/xml;q=0.9,image/avif,image/webp,image/apng,*/*;q=0.8''),
         (''Accept-Language'', ''ko-KR,ko;q=0.9,en-US;q=0.8,en;q=0.7'')],
      req_body = []\<rparr>"

text \<open>Lines 57 to 72: the request, the status test, the body, the store.\<close>

definition fetch_fresh :: "fetch_env \<Rightarrow> string \<Rightarrow> world \<Rightarrow> (thrown + string) \<times> world" where
  "fetch_fresh env url w =
     (let req = html_request env url;
          w1 = w\<lparr>sent := sent w @ [req]\<rparr>
      in case network env req of
           Rejected e \<Rightarrow> (Inl e, w1)
         | Responded r \<Rightarrow>
             if \<not> ok r then
               (Inl (Error (''HTTP '' @ number_to_string (status r) @ '': '' @ statusText r)), w1)
             else
               (case text_result r of
                  Inl e \<Rightarrow> (Inl e, w1)
                | Inr body \<Rightarrow>
                    (Inr body,
                     w1\<lparr>htmlCache := (htmlCache w1)(url \<mapsto> \<lparr>html = body, timestamp = now_store env\<rparr>)\<rparr>)))"

definition fetchHtml :: "fetch_env \<Rightarrow> string \<Rightarrow> bool \<Rightarrow> world \<Rightarrow> (thrown + string) \<times> world" where
  "fetchHtml env url useCache w =
     (if useCache then
        (case htmlCache w url of
           Some cached \<Rightarrow>
             if now_check env - timestamp cached < CACHE_TTL then (Inr (html cached), w)
             else fetch_fresh env url w
         | None \<Rightarrow> fetch_fresh env url w)
      else fetch_fresh env url w)"

subsection \<open>The registry of targets and the two parsing routes\<close>

text \<open>
  \<open>crawlingTargetGroups\<close> is imported from the configuration, which is not among the
  sources: the routes take it as a parameter. A target's parser is a function from the
  page to what awaiting it gives.
\<close>

record ('i, 'd) target =
  target_id :: string
  target_name :: string
  target_url :: string
  parseList :: "string \<Rightarrow> thrown + 'i"
  parseDetail :: "string \<Rightarrow> thrown + 'd"

record ('i, 'd) target_group =
  group_id :: string
  group_name :: string
  targets :: "('i, 'd) target list"

text \<open>
  The fields the routes read from \<open>req.body\<close>: each identifier or URL is a string or
  absent, and \<open>skipCache\<close> is kept as its truth value.
\<close>

record body =
  groupId :: "string option"
  targetId :: "string option"
  customUrl :: "string option"
  body_detailUrl :: "string option"
  skipCache :: bool

definition truthy :: "string option \<Rightarrow> bool" where
  "truthy v = (case v of None \<Rightarrow> False | Some s \<Rightarrow> s \<noteq> [])"

datatype timing = Timing (fetch_time: int) (parse_time: int) (total_time: int)

text \<open>
  What a route answers: \<open>res.status(n).json({error})\<close>; the answer of the
  \<open>catch\<close> block (status 500, the message, and whether a stack is attached); or the
  successful answer with the URL, the page, the parser's result, the timing and
  \<open>cached\<close>.
\<close>

datatype ('i, 'd) reply =
    ErrorReply nat string
  | FailureReply string bool
  | ListReply string string 'i timing bool
  | DetailReply string string 'd timing bool

definition failure :: "thrown \<Rightarrow> ('i, 'd) reply" where
  "failure e = (case e of Error m \<Rightarrow> FailureReply m True | Thrown s \<Rightarrow> FailureReply s False)"

text \<open>The clock readings of a route around the fetch and around the parse.\<close>

record handler_env =
  fenv :: fetch_env
  now_start :: int
  now_fetched :: int
  now_parse_start :: int
  now_parsed :: int

definition timing_of :: "handler_env \<Rightarrow> timing" where
  "timing_of env =
     (let fetchTime = now_fetched env - now_start env;
          parseTime = now_parsed env - now_parse_start env
      in Timing fetchTime parseTime (fetchTime + parseTime))"

definition parse_list_handler ::
  "('i, 'd) target_group list \<Rightarrow> handler_env \<Rightarrow> body \<Rightarrow> world \<Rightarrow> ('i, 'd) reply \<times> world" where
  "parse_list_handler crawlingTargetGroups env b w =
     (case find (\<lambda>g. Some (group_id g) = groupId b) crawlingTargetGroups of
        None \<Rightarrow> (ErrorReply 404 (''Group not found: '' @ js_string (groupId b)), w)
      | Some grp \<Rightarrow>
          (case find (\<lambda>t. Some (target_id t) = targetId b) (targets grp) of
             None \<Rightarrow> (ErrorReply 404 (''Target not found: '' @ js_string (targetId b)), w)
           | Some target \<Rightarrow>
               (let url = (if truthy (customUrl b) then js_string (customUrl b) else target_url target)
                in case fetchHtml (fenv env) url (\<not> skipCache b) w of
                     (Inl e, w1) \<Rightarrow> (failure e, w1)
                   | (Inr page, w1) \<Rightarrow>
                       (let w2 = w1\<lparr>parsed := parsed w1 @ [page]\<rparr>
                        in case parseList target page of
                             Inl e \<Rightarrow> (failure e, w2)
                           | Inr items \<Rightarrow>
                               (ListReply url page items (timing_of env)
                                  (\<not> skipCache b \<and> url \<in> dom (htmlCache w2)), w2)))))"

definition parse_detail_handler ::
  "('i, 'd) target_group list \<Rightarrow> handler_env \<Rightarrow> body \<Rightarrow> world \<Rightarrow> ('i, 'd) reply \<times> world" where
  "parse_detail_handler crawlingTargetGroups env b w =
     (case find (\<lambda>g. Some (group_id g) = groupId b) crawlingTargetGroups of
        None \<Rightarrow> (ErrorReply 404 (''Group not found: '' @ js_string (groupId b)), w)
      | Some grp \<Rightarrow>
          (case find (\<lambda>t. Some (target_id t) = targetId b) (targets grp) of
             None \<Rightarrow> (ErrorReply 404 (''Target not found: '' @ js_string (targetId b)), w)
           | Some target \<Rightarrow>
               if \<not> truthy (body_detailUrl b) then (ErrorReply 400 ''detailUrl is required'', w)
               else
                 (let url = js_string (body_detailUrl b)
                  in case fetchHtml (fenv env) url (\<not> skipCache b) w of
                       (Inl e, w1) \<Rightarrow> (failure e, w1)
                     | (Inr page, w1) \<Rightarrow>
                         (let w2 = w1\<lparr>parsed := parsed w1 @ [page]\<rparr>
                          in case parseDetail target page of
                               Inl e \<Rightarrow> (failure e, w2)
                             | Inr article \<Rightarrow>
                                 (DetailReply url page article (timing_of env)
                                    (\<not> skipCache b \<and> url \<in> dom (htmlCache w2)), w2)))))"

section \<open>The parser of the Yeongnam Archaeological Society's board\<close>

subsection \<open>Identifiers in handler and script text\<close>

definition quote :: char where
  "quote = CHR 0x27"

definition dquote :: char where
  "dquote = CHR 0x22"

definition quoted :: "string \<Rightarrow> string" where
  "quoted s = quote # s @ [quote]"

text \<open>
  The regular expression \<^verbatim>\<open>/fnView\('([^']*)'/\<close> tried at the start of a text: the
  literal \<^verbatim>\<open>fnView('\<close>, then the longest run without a quote, which the next
  character must close with a quote (a shorter run is followed by a character that is
  not a quote, so backtracking finds nothing more). The result is group 1.
\<close>

definition fnView_here :: "string \<Rightarrow> string option" where
  "fnView_here s =
     (if prefix (''fnView('' @ [quote]) s then
        (let rest = drop 8 s
         in case dropWhile (\<lambda>c. c \<noteq> quote) rest of
              [] \<Rightarrow> None
            | c # after \<Rightarrow> Some (takeWhile (\<lambda>c. c \<noteq> quote) rest))
      else None)"

text \<open>\<open>String.prototype.match\<close> without the global flag: the leftmost position that matches.\<close>

fun fnView_match :: "string \<Rightarrow> string option" where
  "fnView_match [] = None"
| "fnView_match (c # s) =
     (case fnView_here (c # s) of Some g \<Rightarrow> Some g | None \<Rightarrow> fnView_match s)"

text \<open>
  \<^verbatim>\<open>/nttSeq[=:]['"]?(\d+)/\<close> tried at the start of a text: the name, one of \<open>=\<close> and
  \<open>:\<close>, a quote of either kind if there is one (without it the digits would have to
  start at the quote), and the longest run of digits, which must not be empty. The
  result is group 1.
\<close>

definition is_digit :: "char \<Rightarrow> bool" where
  "is_digit c = (c \<in> set ''0123456789'')"

definition nttSeq_here :: "string \<Rightarrow> string option" where
  "nttSeq_here s =
     (if prefix ''nttSeq'' s then
        (case drop 6 s of
           [] \<Rightarrow> None
         | c # r \<Rightarrow>
             if c = CHR ''='' \<or> c = CHR '':'' then
               (let r' = (case r of [] \<Rightarrow> r | q # t \<Rightarrow> if q = quote \<or> q = dquote then t else r);
                    digits = takeWhile is_digit r'
                in if digits = [] then None else Some digits)
             else None)
      else None)"

fun nttSeq_match :: "string \<Rightarrow> string option" where
  "nttSeq_match [] = None"
| "nttSeq_match (c # s) =
     (case nttSeq_here (c # s) of Some g \<Rightarrow> Some g | None \<Rightarrow> nttSeq_match s)"

definition extractNttSeq :: "string \<Rightarrow> string" where
  "extractNttSeq page = (case nttSeq_match page of Some g \<Rightarrow> g | None \<Rightarrow> [])"

subsection \<open>The document and the selections the parser makes\<close>

text \<open>
  The tree \<open>cheerio.load\<close> builds: elements with their attributes (one value for a
  name) and children, text, comments and directives.
\<close>

datatype node =
    Element (tagName: string) (attribs: "(string \<times> string) list") (childNodes: "node list")
  | TextNode string
  | CommentNode string
  | Directive string

text \<open>A selection is the list of its nodes in document order.\<close>

type_synonym selection = "node list"

fun descendants :: "node \<Rightarrow> node list" where
  "descendants (Element t a cs) = concat (map (\<lambda>c. c # descendants c) cs)"
| "descendants (TextNode d) = []"
| "descendants (CommentNode d) = []"
| "descendants (Directive d) = []"

definition is_tag :: "string \<Rightarrow> node \<Rightarrow> bool" where
  "is_tag name n = (case n of Element t a cs \<Rightarrow> t = name | _ \<Rightarrow> False)"

text \<open>
  \<open>.find(name)\<close> with a tag name: the descendants with that tag. The parser only
  calls it on selections of at most one element, where no node is reached twice.
\<close>

definition find_sel :: "string \<Rightarrow> selection \<Rightarrow> selection" where
  "find_sel name sel = concat (map (\<lambda>e. filter (is_tag name) (descendants e)) sel)"

definition eq_sel :: "nat \<Rightarrow> selection \<Rightarrow> selection" where
  "eq_sel i sel = (if i < length sel then [sel ! i] else [])"

text \<open>\<open>.attr(name)\<close>: the attribute of the first node, \<open>undefined\<close> without one.\<close>

definition attr :: "string \<Rightarrow> selection \<Rightarrow> string option" where
  "attr name sel =
     (case sel of
        [] \<Rightarrow> None
      | e # rest \<Rightarrow> (case e of Element t a cs \<Rightarrow> map_of a name | _ \<Rightarrow> None))"

fun text_content :: "node \<Rightarrow> string" where
  "text_content (Element t a cs) = concat (map text_content cs)"
| "text_content (TextNode d) = d"
| "text_content (CommentNode d) = []"
| "text_content (Directive d) = []"

definition text_sel :: "selection \<Rightarrow> string" where
  "text_sel sel = concat (map text_content sel)"

text \<open>
  White space as \<open>trim\<close> and \<^verbatim>\<open>\s\<close> know it, each character in UTF-8: tab, line
  feed, vertical tab, form feed, carriage return, space, U+00A0, U+1680, U+2000 to
  U+200A, U+2028, U+2029, U+202F, U+205F, U+3000 and U+FEFF.
\<close>

definition white_space :: "string list" where
  "white_space =
     [[CHR 0x09], [CHR 0x0A], [CHR 0x0B], [CHR 0x0C], [CHR 0x0D], [CHR 0x20],
      [CHR 0xC2, CHR 0xA0], [CHR 0xE1, CHR 0x9A, CHR 0x80],
      [CHR 0xE2, CHR 0x80, CHR 0x80], [CHR 0xE2, CHR 0x80, CHR 0x81],
      [CHR 0xE2, CHR 0x80, CHR 0x82], [CHR 0xE2, CHR 0x80, CHR 0x83],
      [CHR 0xE2, CHR 0x80, CHR 0x84], [CHR 0xE2, CHR 0x80, CHR 0x85],
      [CHR 0xE2, CHR 0x80, CHR 0x86], [CHR 0xE2, CHR 0x80, CHR 0x87],
      [CHR 0xE2, CHR 0x80, CHR 0x88], [CHR 0xE2, CHR 0x80, CHR 0x89],
      [CHR 0xE2, CHR 0x80, CHR 0x8A], [CHR 0xE2, CHR 0x80, CHR 0xA8],
      [CHR 0xE2, CHR 0x80, CHR 0xA9], [CHR 0xE2, CHR 0x80, CHR 0xAF],
      [CHR 0xE2, CHR 0x81, CHR 0x9F], [CHR 0xE3, CHR 0x80, CHR 0x80],
      [CHR 0xEF, CHR 0xBB, CHR 0xBF]]"

function strip_start :: "string list \<Rightarrow> string \<Rightarrow> string" where
  "strip_start seqs s =
     (case find (\<lambda>w. w \<noteq> [] \<and> prefix w s) seqs of
        None \<Rightarrow> s
      | Some w \<Rightarrow> strip_start seqs (drop (length w) s))"
  by pat_completeness auto
termination
proof (relation "measure (\<lambda>(seqs, s). length s)")
  fix seqs :: "string list" and s w :: string
  assume "find (\<lambda>w. w \<noteq> [] \<and> prefix w s) seqs = Some w"
  then have "w \<noteq> []" and "prefix w s"
    by (auto simp: find_Some_iff)
  then have "s \<noteq> []" and "0 < length w"
    by auto
  then show "((seqs, drop (length w) s), (seqs, s)) \<in> measure (\<lambda>(seqs, s). length s)"
    by simp
qed simp

declare strip_start.simps [simp del]

definition trim :: "string \<Rightarrow> string" where
  "trim s = rev (strip_start (map rev white_space) (rev (strip_start white_space s)))"

text \<open>
  The class selector: the element has a \<open>class\<close> attribute in which the name stands
  between white space or the ends of the value.
\<close>

definition class_match :: "string \<Rightarrow> string \<Rightarrow> bool" where
  "class_match name v =
     list_ex
       (\<lambda>i. prefix name (drop i v)
          \<and> (i = 0 \<or> list_ex (\<lambda>w. suffix w (take i v)) white_space)
          \<and> (drop (i + length name) v = []
              \<or> list_ex (\<lambda>w. prefix w (drop (i + length name) v)) white_space))
       [0..<Suc (length v)]"

definition has_class :: "string \<Rightarrow> node \<Rightarrow> bool" where
  "has_class name n =
     (case n of
        Element t a cs \<Rightarrow> (case map_of a ''class'' of None \<Rightarrow> False | Some v \<Rightarrow> class_match name v)
      | _ \<Rightarrow> False)"

text \<open>
  \<^verbatim>\<open>$('.basic-table01 tr')\<close>: the \<open>tr\<close> elements below an element of class
  \<open>basic-table01\<close>, in document order. The flag says that such an ancestor was passed.
\<close>

fun rows_below :: "bool \<Rightarrow> node \<Rightarrow> node list" where
  "rows_below inside (Element t a cs) =
     (if inside \<and> t = ''tr'' then [Element t a cs] else [])
     @ concat (map (rows_below (inside \<or> has_class ''basic-table01'' (Element t a cs))) cs)"
| "rows_below inside (TextNode d) = []"
| "rows_below inside (CommentNode d) = []"
| "rows_below inside (Directive d) = []"

definition select_rows :: "node list \<Rightarrow> selection" where
  "select_rows doc = concat (map (rows_below False) doc)"

subsection \<open>\<open>getUniqId\<close> and \<open>parseYngogoList\<close>\<close>

definition getUniqId :: "selection \<Rightarrow> string" where
  "getUniqId element =
     (case fnView_match (case attr ''onclick'' element of None \<Rightarrow> [] | Some v \<Rightarrow> v) of
        None \<Rightarrow> []
      | Some g \<Rightarrow> g)"

definition LIST_API_URL :: string where
  "LIST_API_URL = ''http://www.yngogo.or.kr/module/ntt/unity/selectNttListAjax.ink''"

definition BASE_URL :: string where
  "BASE_URL = ''http://www.yngogo.or.kr''"

datatype DateType = REGISTERED | OtherDateType

record 'date post =
  uniqId :: string
  title :: string
  date :: 'date
  detailUrl :: string
  dateType :: DateType

text \<open>
  What the parser takes from outside its file: \<open>cleanUrl\<close> and \<open>getDate\<close> of
  \<open>./utils\<close>, which is not among the sources, and \<open>cheerio.load\<close>, here from the
  text of a page to the nodes of its document. The specification gives the two utilities
  as \<open>cleanUrl(url: string) -> string\<close> and \<open>getDate(text: string) -> Date\<close>; they
  are taken as functions that return for every text, over any type of dates.
\<close>

record 'date externals =
  cleanUrl :: "string \<Rightarrow> string"
  getDate :: "string \<Rightarrow> 'date"
  load :: "string \<Rightarrow> node list"


definition list_request :: "rat \<Rightarrow> string \<Rightarrow> string \<Rightarrow> string \<Rightarrow> request" where
  "list_request rnd menuSeq bbsSeq sitecntntsSeq =
     \<lparr>req_url = LIST_API_URL, req_method = ''POST'',
      req_headers =
        [(''Content-Type'', ''application/x-www-form-urlencoded''),
         (''User-Agent'', js_string (getRandomUserAgent rnd))],
      req_body =
        [(''siteSeq'', ''32000001030''), (''bbsSeq'', bbsSeq), (''pageIndex'', ''1''),
         (''menuSeq'', menuSeq), (''pageMode'', ''B''), (''sitecntntsSeq'', sitecntntsSeq),
         (''tabTyCode'', ''dataManage''), (''mngrAt'', ''N''), (''searchCondition'', []),
         (''searchKeyword'', []), (''nttSeq'', [])]\<rparr>"

text \<open>Lines 87 to 101: the record pushed for a row that has columns.\<close>

definition row_post ::
  "'date externals \<Rightarrow> string \<Rightarrow> string \<Rightarrow> string \<Rightarrow> selection \<Rightarrow> 'date post" where
  "row_post ext menuSeq bbsSeq sitecntntsSeq columns =
     (let titleElement = find_sel ''a'' (eq_sel 1 columns);
          uniqId = getUniqId titleElement;
          detailUrl = BASE_URL @ ''/subList/'' @ menuSeq @ ''?pmode=detail&nttSeq='' @ uniqId
                      @ ''&bbsSeq='' @ bbsSeq @ ''&sitecntntsSeq='' @ sitecntntsSeq;
          title = trim (text_sel titleElement);
          date = getDate ext (trim (text_sel (eq_sel 3 columns)))
      in \<lparr>uniqId = uniqId, title = title, date = date, detailUrl = cleanUrl ext detailUrl,
          dateType = REGISTERED\<rparr>)"

text \<open>Lines 81 to 102: the body of \<open>each\<close>, from the posts so far to the posts after the row.\<close>

definition each_row ::
  "'date externals \<Rightarrow> string \<Rightarrow> string \<Rightarrow> string \<Rightarrow> 'date post list \<Rightarrow> node \<Rightarrow> 'date post list" where
  "each_row ext menuSeq bbsSeq sitecntntsSeq posts element =
     (let columns = find_sel ''td'' [element]
      in if length columns = 0 then posts
         else posts @ [row_post ext menuSeq bbsSeq sitecntntsSeq columns])"

text \<open>
  The page passed in is not used: the list is requested from the board's own endpoint.
  The network is the function from the request to what awaiting \<open>fetch\<close> gives.
\<close>

definition parseYngogoList ::
  "'date externals \<Rightarrow> rat \<Rightarrow> (request \<Rightarrow> net_outcome) \<Rightarrow> string \<Rightarrow> string \<Rightarrow> string \<Rightarrow> string
     \<Rightarrow> thrown + 'date post list" where
  "parseYngogoList ext rnd net unused_html menuSeq bbsSeq sitecntntsSeq =
     (case net (list_request rnd menuSeq bbsSeq sitecntntsSeq) of
        Rejected e \<Rightarrow> Inl e
      | Responded r \<Rightarrow>
          (case text_result r of
             Inl e \<Rightarrow> Inl e
           | Inr page \<Rightarrow>
               Inr (foldl (each_row ext menuSeq bbsSeq sitecntntsSeq) []
                      (select_rows (load ext page)))))"

section \<open>Words of the specification\<close>

text \<open>
  The specification's freshness: an entry is fresh iff \<open>now - fetchedAt < TTL\<close>, and a
  URL without an entry has no fresh entry.
\<close>

definition fresh_entry :: "int \<Rightarrow> cache_entry option \<Rightarrow> bool" where
  "fresh_entry now entry = (case entry of None \<Rightarrow> False | Some c \<Rightarrow> now - timestamp c < CACHE_TTL)"

text \<open>
  A handler text has a matching call pattern when it holds \<^verbatim>\<open>fnView('\<close>, an argument
  without a quote, and the closing quote.
\<close>

definition has_fnView_call :: "string \<Rightarrow> bool" where
  "has_fnView_call handler =
     (\<exists>pre arg post. handler = pre @ ''fnView('' @ quoted arg @ post \<and> quote \<notin> set arg)"

text \<open>
  A text has a matching parameter when it holds the name \<open>nttSeq\<close>, one of \<open>=\<close> and
  \<open>:\<close>, no quote or one quote of either kind, and a digit.
\<close>

definition has_nttSeq_param :: "string \<Rightarrow> bool" where
  "has_nttSeq_param page =
     (\<exists>pre sep q d post. page = pre @ ''nttSeq'' @ [sep] @ q @ [d] @ post
        \<and> (sep = CHR ''='' \<or> sep = CHR '':'') \<and> (q = [] \<or> q = [quote] \<or> q = [dquote])
        \<and> is_digit d)"

section \<open>Names for the parts of a row\<close>

text \<open>
  The rows with at least one data column (those the callback does not leave at line 84),
  the anchors in the second column of a row (\<open>titleElement\<close>), and the text
  \<open>getUniqId\<close> searches: the \<open>onclick\<close> attribute, or the empty string without it.
\<close>

definition data_rows :: "node list \<Rightarrow> node list" where
  "data_rows doc = filter (\<lambda>row. find_sel ''td'' [row] \<noteq> []) (select_rows doc)"

definition title_anchor :: "node \<Rightarrow> selection" where
  "title_anchor row = find_sel ''a'' (eq_sel 1 (find_sel ''td'' [row]))"

definition click_handler :: "node \<Rightarrow> string" where
  "click_handler row = (case attr ''onclick'' (title_anchor row) of None \<Rightarrow> [] | Some v \<Rightarrow> v)"

section \<open>Example inputs\<close>

definition net_status :: "nat \<Rightarrow> string \<Rightarrow> string \<Rightarrow> request \<Rightarrow> net_outcome" where
  "net_status n st page req = Responded \<lparr>status = n, statusText = st, text_result = Inr page\<rparr>"

definition env_at :: "int \<Rightarrow> int \<Rightarrow> (request \<Rightarrow> net_outcome) \<Rightarrow> fetch_env" where
  "env_at t t' net = \<lparr>now_check = t, now_store = t', random = 3 / 10, network = net\<rparr>"

definition empty_world :: world where
  "empty_world = \<lparr>htmlCache = Map.empty, sent = [], parsed = []\<rparr>"

definition cached_world :: "string \<Rightarrow> string \<Rightarrow> int \<Rightarrow> world" where
  "cached_world url page t =
     \<lparr>htmlCache = [url \<mapsto> \<lparr>html = page, timestamp = t\<rparr>], sent = [], parsed = []\<rparr>"

definition example_groups :: "(unit, unit) target_group list" where
  "example_groups =
     [\<lparr>group_id = ''news'', group_name = ''News'',
       targets =
         [\<lparr>target_id = ''yngogo'', target_name = ''Yeongnam'', target_url = ''http://www.yngogo.or.kr'',
           parseList = (\<lambda>page. Inr ()), parseDetail = (\<lambda>page. Inr ())\<rparr>]\<rparr>]"

definition example_body :: body where
  "example_body =
     \<lparr>groupId = Some ''news'', targetId = Some ''missing'', customUrl = None,
      body_detailUrl = Some ''http://www.yngogo.or.kr/a'', skipCache = False\<rparr>"

definition example_handler_env :: handler_env where
  "example_handler_env =
     \<lparr>fenv = env_at 0 1 (net_status 200 ''OK'' ''page''), now_start = 0, now_fetched = 2,
      now_parse_start = 2, now_parsed = 3\<rparr>"

definition view_call :: "string \<Rightarrow> string" where
  "view_call ident =
     ''fnView('' @ quoted ident @ '', '' @ quoted ''admin'' @ '', '' @ quoted [] @ '', '' @ quoted []
     @ '','' @ quoted [] @ '');''"

definition header_row :: node where
  "header_row =
     Element ''tr'' []
       [Element ''th'' [] [TextNode ''No''], Element ''th'' [] [TextNode ''Title''],
        Element ''th'' [] [TextNode ''Writer''], Element ''th'' [] [TextNode ''Date'']]"

definition example_row :: "string \<Rightarrow> string \<Rightarrow> string \<Rightarrow> string \<Rightarrow> node" where
  "example_row no handler ttl day =
     Element ''tr'' []
       [Element ''td'' [] [TextNode no],
        Element ''td'' [(''class'', ''subject'')]
          [Element ''a'' [(''href'', ''#none''), (''onclick'', handler)] [TextNode ttl]],
        Element ''td'' [] [TextNode ''admin''],
        Element ''td'' [] [TextNode day]]"

definition example_doc :: "node list \<Rightarrow> node list" where
  "example_doc rows =
     [Directive ''!doctype html'',
      Element ''html'' []
        [Element ''head'' [] [],
         Element ''body'' []
           [Element ''table'' [(''class'', ''basic-table01 mt10'')]
              [Element ''thead'' [] [header_row], Element ''tbody'' [] rows]]]]"

definition example_ext :: "(string \<Rightarrow> string) \<Rightarrow> node list \<Rightarrow> string externals" where
  "example_ext clean doc = \<lparr>cleanUrl = clean, getDate = (\<lambda>text. text), load = (\<lambda>page. doc)\<rparr>"

definition keep_url :: "string \<Rightarrow> string" where
  "keep_url u = u"


definition three_rows :: "node list" where
  "three_rows =
     [example_row ''3'' (view_call ''1005200644'') '' Third notice '' ''2024.03.01'',
      example_row ''2'' (view_call ''1005200643'') ''Second notice'' ''2024.02.01'',
      example_row ''1'' (view_call ''1005200642'') ''First notice'' ''2024.01.01'']"


definition plain_row :: node where
  "plain_row = example_row ''1'' ''return false;'' ''First notice'' ''2024.01.01''"

definition first_row :: node where
  "first_row = example_row ''1'' (view_call ''1005200642'') ''First notice'' ''2024.01.01''"




definition list_page :: "request \<Rightarrow> net_outcome" where
  "list_page = net_status 200 ''OK'' ''<table>''"

section \<open>The cache of \<open>fetchHtml\<close>\<close>

lemma fetchHtml_hit:
  "htmlCache w url = Some c \<Longrightarrow> now_check env - timestamp c < CACHE_TTL \<Longrightarrow>
   fetchHtml env url True w = (Inr (html c), w)"
  by (simp add: fetchHtml_def)

lemma fetchHtml_miss:
  "\<not> useCache \<or> \<not> fresh_entry (now_check env) (htmlCache w url) \<Longrightarrow>
   fetchHtml env url useCache w = fetch_fresh env url w"
  by (auto simp: fetchHtml_def fresh_entry_def split: option.splits)

lemma sent_fetch_fresh:
  "sent (snd (fetch_fresh env url w)) = sent w @ [html_request env url]"
  by (simp add: fetch_fresh_def Let_def split: net_outcome.splits sum.splits)

lemma fetch_fresh_success:
  "network env (html_request env url) = Responded r \<Longrightarrow> ok r \<Longrightarrow> text_result r = Inr body \<Longrightarrow>
   fetch_fresh env url w =
     (Inr body, w\<lparr>sent := sent w @ [html_request env url],
                  htmlCache := (htmlCache w)(url \<mapsto> \<lparr>html = body, timestamp = now_store env\<rparr>)\<rparr>)"
  by (simp add: fetch_fresh_def Let_def)


lemma fetch_fresh_failure_cache:
  "fst (fetch_fresh env url w) = Inl e \<Longrightarrow> htmlCache (snd (fetch_fresh env url w)) = htmlCache w"
  by (auto simp: fetch_fresh_def Let_def split: net_outcome.splits sum.splits if_splits)



text \<open>
  C1. A cache-enabled fetch answers from the cache, with no request and the state
  unchanged, when the URL has an entry with \<open>now - timestamp < CACHE_TTL\<close>, five
  minutes; without such an entry it sends one request; so no request is sent exactly
  when the entry is fresh. When a fetch without a fresh entry gets a 2xx page, it returns
  the page and has sent one request; a later cache-enabled fetch of the URL that begins
  less than \<open>CACHE_TTL\<close> after the store, in any state that still holds the stored entry,
  returns the same page and sends nothing. An entry whose age has reached \<open>CACHE_TTL\<close>
  is passed over and a request is sent.
\<close>

theorem fetchHtml_cache_window:
  "CACHE_TTL = 5 * 60 * 1000
   \<and> (htmlCache w url = Some c \<and> now_check env - timestamp c < CACHE_TTL \<longrightarrow>
        fetchHtml env url True w = (Inr (html c), w))
   \<and> (\<not> fresh_entry (now_check env) (htmlCache w url) \<longrightarrow>
        sent (snd (fetchHtml env url True w)) = sent w @ [html_request env url])
   \<and> (fresh_entry (now_check env) (htmlCache w url) \<longleftrightarrow>
        sent (snd (fetchHtml env url True w)) = sent w)
   \<and> (\<not> fresh_entry (now_check env) (htmlCache w url) \<and>
        network env (html_request env url) = Responded r \<and> ok r \<and> text_result r = Inr content \<and>
        now_check env2 - now_store env < CACHE_TTL \<and>
        htmlCache w2 url = htmlCache (snd (fetchHtml env url True w)) url \<longrightarrow>
          fst (fetchHtml env url True w) = Inr content
          \<and> sent (snd (fetchHtml env url True w)) = sent w @ [html_request env url]
          \<and> fetchHtml env2 url True w2 = (Inr content, w2))
   \<and> (htmlCache w url = Some c \<and> CACHE_TTL \<le> now_check env - timestamp c \<longrightarrow>
        sent (snd (fetchHtml env url True w)) = sent w @ [html_request env url])"
proof (intro conjI impI)
  show "CACHE_TTL = 5 * 60 * 1000"
    by (simp add: CACHE_TTL_def)
next
  assume "htmlCache w url = Some c \<and> now_check env - timestamp c < CACHE_TTL"
  then show "fetchHtml env url True w = (Inr (html c), w)"
    by (simp add: fetchHtml_hit)
next
  assume "\<not> fresh_entry (now_check env) (htmlCache w url)"
  then show "sent (snd (fetchHtml env url True w)) = sent w @ [html_request env url]"
    by (simp add: fetchHtml_miss sent_fetch_fresh)
next
  show "fresh_entry (now_check env) (htmlCache w url) \<longleftrightarrow>
        sent (snd (fetchHtml env url True w)) = sent w"
  proof (cases "fresh_entry (now_check env) (htmlCache w url)")
    case True
    then obtain c' where "htmlCache w url = Some c'" "now_check env - timestamp c' < CACHE_TTL"
      by (auto simp: fresh_entry_def split: option.splits)
    then show ?thesis using True by (simp add: fetchHtml_hit)
  next
    case False
    then show ?thesis by (simp add: fetchHtml_miss sent_fetch_fresh)
  qed
next
  assume a: "\<not> fresh_entry (now_check env) (htmlCache w url) \<and>
        network env (html_request env url) = Responded r \<and> ok r \<and> text_result r = Inr content \<and>
        now_check env2 - now_store env < CACHE_TTL \<and>
        htmlCache w2 url = htmlCache (snd (fetchHtml env url True w)) url"
  let ?e = "\<lparr>html = content, timestamp = now_store env\<rparr>"
  let ?w1 = "w\<lparr>sent := sent w @ [html_request env url],
                htmlCache := (htmlCache w)(url \<mapsto> ?e)\<rparr>"
  from a have first: "fetchHtml env url True w = (Inr content, ?w1)"
    by (simp add: fetchHtml_miss fetch_fresh_success)
  show "fst (fetchHtml env url True w) = Inr content"
    by (simp add: first)
  show "sent (snd (fetchHtml env url True w)) = sent w @ [html_request env url]"
    by (simp add: first)
  from a have "htmlCache w2 url = Some ?e"
    by (simp add: first)
  moreover have "now_check env2 - timestamp ?e < CACHE_TTL"
    using a by simp
  ultimately have "fetchHtml env2 url True w2 = (Inr (html ?e), w2)"
    by (rule fetchHtml_hit)
  then show "fetchHtml env2 url True w2 = (Inr content, w2)"
    by simp
next
  assume "htmlCache w url = Some c \<and> CACHE_TTL \<le> now_check env - timestamp c"
  then have "\<not> fresh_entry (now_check env) (htmlCache w url)"
    by (simp add: fresh_entry_def)
  then show "sent (snd (fetchHtml env url True w)) = sent w @ [html_request env url]"
    by (simp add: fetchHtml_miss sent_fetch_fresh)
qed

theorem fetchHtml_cache_window_witness:
  "fetchHtml (env_at 299999 300000 (net_status 200 ''OK'' ''new'')) ''u'' True (cached_world ''u'' ''old'' 0)
     = (Inr ''old'', cached_world ''u'' ''old'' 0)
   \<and> fst (fetchHtml (env_at 0 10 (net_status 200 ''OK'' ''page'')) ''u'' True empty_world) = Inr ''page''
   \<and> sent (snd (fetchHtml (env_at 0 10 (net_status 200 ''OK'' ''page'')) ''u'' True empty_world))
     = [html_request (env_at 0 10 (net_status 200 ''OK'' ''page'')) ''u'']
   \<and> fst (fetchHtml (env_at 300009 300010 (net_status 200 ''OK'' ''other'')) ''u'' True
            (snd (fetchHtml (env_at 0 10 (net_status 200 ''OK'' ''page'')) ''u'' True empty_world)))
     = Inr ''page''
   \<and> sent (snd (fetchHtml (env_at 300009 300010 (net_status 200 ''OK'' ''other'')) ''u'' True
                  (snd (fetchHtml (env_at 0 10 (net_status 200 ''OK'' ''page'')) ''u'' True empty_world))))
     = [html_request (env_at 0 10 (net_status 200 ''OK'' ''page'')) ''u'']
   \<and> sent (snd (fetchHtml (env_at 300000 300001 (net_status 200 ''OK'' ''new'')) ''u'' True
                  (cached_world ''u'' ''old'' 0)))
     = [html_request (env_at 300000 300001 (net_status 200 ''OK'' ''new'')) ''u'']"
proof -
  let ?e1 = "env_at 0 10 (net_status 200 ''OK'' ''page'')"
  let ?e2 = "env_at 300009 300010 (net_status 200 ''OK'' ''other'')"
  let ?r = "\<lparr>status = 200, statusText = ''OK'', text_result = Inr ''page''\<rparr>"
  have hit: "htmlCache (cached_world ''u'' ''old'' 0) ''u'' = Some \<lparr>html = ''old'', timestamp = 0\<rparr>
      \<and> now_check (env_at 299999 300000 (net_status 200 ''OK'' ''new''))
          - timestamp \<lparr>html = ''old'', timestamp = 0\<rparr> < CACHE_TTL"
    by (simp add: cached_world_def env_at_def CACHE_TTL_def)
  have miss: "\<not> fresh_entry (now_check ?e1) (htmlCache empty_world ''u'')
      \<and> network ?e1 (html_request ?e1 ''u'') = Responded ?r \<and> ok ?r \<and> text_result ?r = Inr ''page''
      \<and> now_check ?e2 - now_store ?e1 < CACHE_TTL
      \<and> htmlCache (snd (fetchHtml ?e1 ''u'' True empty_world)) ''u''
        = htmlCache (snd (fetchHtml ?e1 ''u'' True empty_world)) ''u''"
    by (simp add: fresh_entry_def empty_world_def env_at_def net_status_def ok_def CACHE_TTL_def)
  have stale: "htmlCache (cached_world ''u'' ''old'' 0) ''u'' = Some \<lparr>html = ''old'', timestamp = 0\<rparr>
      \<and> CACHE_TTL \<le> now_check (env_at 300000 300001 (net_status 200 ''OK'' ''new''))
          - timestamp \<lparr>html = ''old'', timestamp = 0\<rparr>"
    by (simp add: cached_world_def env_at_def CACHE_TTL_def)
  show ?thesis
    using fetchHtml_cache_window [THEN conjunct2, THEN conjunct1, rule_format, OF hit]
      fetchHtml_cache_window [THEN conjunct2, THEN conjunct2, THEN conjunct2, THEN conjunct2,
        THEN conjunct1, rule_format, OF miss]
      fetchHtml_cache_window [THEN conjunct2, THEN conjunct2, THEN conjunct2, THEN conjunct2,
        THEN conjunct2, rule_format, OF stale]
    by (simp add: empty_world_def cached_world_def)
qed



text \<open>
  C9. A call of \<open>fetchHtml\<close> that throws, be it that the request failed, that the status
  was outside 200 to 299 or that the body could not be read, leaves \<open>htmlCache\<close> as it
  was, the entry of the requested URL included.
\<close>

theorem fetchHtml_failure_keeps_cache:
  assumes "fst (fetchHtml env url useCache w) = Inl e"
  shows "htmlCache (snd (fetchHtml env url useCache w)) = htmlCache w"
proof (cases "useCache \<and> fresh_entry (now_check env) (htmlCache w url)")
  case True
  then obtain c where "htmlCache w url = Some c" "now_check env - timestamp c < CACHE_TTL"
    by (auto simp: fresh_entry_def split: option.splits)
  with True have "fetchHtml env url useCache w = (Inr (html c), w)"
    by (simp add: fetchHtml_hit)
  with assms show ?thesis by simp
next
  case False
  then have "fetchHtml env url useCache w = fetch_fresh env url w"
    by (intro fetchHtml_miss) blast
  with assms show ?thesis
    by (simp add: fetch_fresh_failure_cache)
qed

theorem fetchHtml_failure_keeps_cache_witness:
  "fst (fetchHtml (env_at 300000 300001 (net_status 500 ''Internal Server Error'' [])) ''u'' True
          (cached_world ''u'' ''old'' 0))
     = Inl (Error ''HTTP 500: Internal Server Error'')
   \<and> htmlCache (snd (fetchHtml (env_at 300000 300001 (net_status 500 ''Internal Server Error'' [])) ''u'' True
                       (cached_world ''u'' ''old'' 0))) ''u''
     = Some \<lparr>html = ''old'', timestamp = 0\<rparr>"
proof -
  have s500: "number_to_string 500 = ''500''"
    by (simp add: number_to_string.simps digit_char_def)
  have h: "fst (fetchHtml (env_at 300000 300001 (net_status 500 ''Internal Server Error'' [])) ''u'' True
                  (cached_world ''u'' ''old'' 0))
           = Inl (Error ''HTTP 500: Internal Server Error'')"
    by (simp add: fetchHtml_def fetch_fresh_def env_at_def net_status_def cached_world_def
        CACHE_TTL_def ok_def s500)
  show ?thesis
    using h fetchHtml_failure_keeps_cache [OF h] by (simp add: cached_world_def)
qed

section \<open>The routes\<close>

lemma find_group:
  "gid \<in> group_id ` set groups \<Longrightarrow>
   \<exists>g \<in> set groups. group_id g = gid \<and> find (\<lambda>g. Some (group_id g) = Some gid) groups = Some g"
  by (induction groups) auto

lemma find_target_none:
  "tid \<notin> target_id ` set ts \<Longrightarrow> find (\<lambda>t. Some (target_id t) = Some tid) ts = None"
  by (induction ts) auto

text \<open>
  C8. A request to either parsing route that names a group of the registry and a target
  that no group of that name holds is answered with status 404 and the message
  \<open>Target not found:\<close> followed by the target identifier; the state is unchanged: no
  request was sent and no parser was called.
\<close>

theorem unknown_target_not_found:
  assumes "groupId b = Some gid" and "targetId b = Some tid"
    and "gid \<in> group_id ` set groups"
    and "\<forall>g \<in> set groups. group_id g = gid \<longrightarrow> tid \<notin> target_id ` set (targets g)"
  shows "parse_list_handler groups env b w = (ErrorReply 404 (''Target not found: '' @ tid), w)
       \<and> parse_detail_handler groups env b w = (ErrorReply 404 (''Target not found: '' @ tid), w)"
proof -
  obtain g where g: "g \<in> set groups" "group_id g = gid"
      "find (\<lambda>g. Some (group_id g) = Some gid) groups = Some g"
    using find_group [OF assms(3)] by blast
  then have "tid \<notin> target_id ` set (targets g)" using assms(4) by blast
  then have t: "find (\<lambda>t. Some (target_id t) = Some tid) (targets g) = None"
    by (rule find_target_none)
  show ?thesis
    using g(3) t assms(1,2) by (simp add: parse_list_handler_def parse_detail_handler_def js_string_def)
qed

theorem unknown_target_not_found_witness:
  "parse_list_handler example_groups example_handler_env example_body empty_world
     = (ErrorReply 404 ''Target not found: missing'', empty_world)
   \<and> parse_detail_handler example_groups example_handler_env example_body empty_world
     = (ErrorReply 404 ''Target not found: missing'', empty_world)"
proof -
  have a: "groupId example_body = Some ''news''" and b: "targetId example_body = Some ''missing''"
    by (simp_all add: example_body_def)
  have c: "''news'' \<in> group_id ` set example_groups"
    by (simp add: example_groups_def)
  have d: "\<forall>g \<in> set example_groups. group_id g = ''news'' \<longrightarrow> ''missing'' \<notin> target_id ` set (targets g)"
    by (simp add: example_groups_def)
  show ?thesis
    using unknown_target_not_found [OF a b c d] by simp
qed

section \<open>Identifier extraction\<close>

lemma fnView_here_call:
  assumes "quote \<notin> set arg"
  shows "fnView_here (''fnView('' @ quoted arg @ rest) = Some arg"
proof -
  have p: "\<forall>c \<in> set arg. c \<noteq> quote" using assms by auto
  have d: "drop 8 (''fnView('' @ quoted arg @ rest) = arg @ quote # rest"
    by (simp add: quoted_def)
  have "dropWhile (\<lambda>c. c \<noteq> quote) (arg @ quote # rest) = quote # rest"
    using p by (simp add: dropWhile_append3)
  moreover have "takeWhile (\<lambda>c. c \<noteq> quote) (arg @ quote # rest) = arg"
    using p by (simp add: takeWhile_tail)
  moreover have "prefix (''fnView('' @ [quote]) (''fnView('' @ quoted arg @ rest)"
    by (simp add: quoted_def)
  ultimately show ?thesis
    unfolding fnView_here_def d by (simp add: Let_def)
qed

lemma fnView_match_call:
  assumes "quote \<notin> set arg"
  shows "fnView_match (''fnView('' @ quoted arg @ rest) = Some arg"
proof -
  have "''fnView('' @ quoted arg @ rest = CHR ''f'' # (''nView('' @ quoted arg @ rest)" by simp
  then show ?thesis
    using fnView_here_call [OF assms, of rest] by (metis fnView_match.simps(2) option.simps(5))
qed

lemma fnView_here_Some:
  assumes "fnView_here s = Some g"
  shows "\<exists>post. s = ''fnView('' @ quoted g @ post \<and> quote \<notin> set g"
proof -
  from assms have pre: "prefix (''fnView('' @ [quote]) s"
    by (auto simp: fnView_here_def split: if_splits)
  then obtain rest where s: "s = (''fnView('' @ [quote]) @ rest"
    by (auto simp: prefix_def)
  then have d: "drop 8 s = rest" by simp
  from assms pre obtain c after where
    dw: "dropWhile (\<lambda>c. c \<noteq> quote) rest = c # after" and g: "g = takeWhile (\<lambda>c. c \<noteq> quote) rest"
    unfolding fnView_here_def d by (auto simp: Let_def split: list.splits)
  have "\<not> (hd (dropWhile (\<lambda>c. c \<noteq> quote) rest) \<noteq> quote)"
    using dw hd_dropWhile [of "\<lambda>c. c \<noteq> quote" rest] by simp
  then have c: "c = quote" using dw by simp
  have "rest = g @ quote # after"
    using takeWhile_dropWhile_id [of "\<lambda>c. c \<noteq> quote" rest] dw g c by simp
  moreover have "quote \<notin> set g"
    using g set_takeWhileD [of quote "\<lambda>c. c \<noteq> quote" rest] by auto
  ultimately show ?thesis using s by (auto simp: quoted_def)
qed

lemma has_fnView_call_Cons:
  assumes "has_fnView_call s"
  shows "has_fnView_call (c # s)"
proof -
  from assms obtain pre arg post where "s = pre @ ''fnView('' @ quoted arg @ post" "quote \<notin> set arg"
    by (auto simp: has_fnView_call_def)
  then have "c # s = (c # pre) @ ''fnView('' @ quoted arg @ post \<and> quote \<notin> set arg" by simp
  then show ?thesis unfolding has_fnView_call_def by blast
qed

lemma fnView_match_Some:
  "fnView_match s = Some g \<Longrightarrow> has_fnView_call s"
proof (induction s)
  case Nil
  then show ?case by simp
next
  case (Cons c s)
  show ?case
  proof (cases "fnView_here (c # s)")
    case None
    with Cons show ?thesis by (simp add: has_fnView_call_Cons)
  next
    case (Some g')
    then obtain post where "c # s = ''fnView('' @ quoted g' @ post \<and> quote \<notin> set g'"
      using fnView_here_Some by blast
    then have "c # s = [] @ ''fnView('' @ quoted g' @ post \<and> quote \<notin> set g'" by simp
    then show ?thesis unfolding has_fnView_call_def by blast
  qed
qed

lemma fnView_match_complete:
  assumes "has_fnView_call s"
  shows "\<exists>g. fnView_match s = Some g"
proof -
  from assms obtain pre arg post where s: "s = pre @ ''fnView('' @ quoted arg @ post"
    and q: "quote \<notin> set arg"
    by (auto simp: has_fnView_call_def)
  have "\<exists>g. fnView_match (pre @ ''fnView('' @ quoted arg @ post) = Some g"
  proof (induction pre)
    case Nil
    show ?case using fnView_match_call [OF q, of post] by simp
  next
    case (Cons a pre)
    then show ?case
      by (cases "fnView_here (a # pre @ ''fnView('' @ quoted arg @ post)") auto
  qed
  with s show ?thesis by simp
qed

text \<open>
  C4. \<open>getUniqId\<close> of an element whose \<open>onclick\<close> is
  \<^verbatim>\<open>fnView('1005200642', 'admin', '', '','')\<close> is \<open>1005200642\<close>; more generally a
  handler that begins with \<^verbatim>\<open>fnView('\<close>, an argument without a quote and the closing
  quote gives that argument. A handler without a matching call pattern, and an element
  without the attribute, give the empty string.
\<close>

theorem getUniqId_fnView:
  "(attr ''onclick'' element =
      Some (''fnView('' @ quoted ''1005200642'' @ '', '' @ quoted ''admin'' @ '', '' @ quoted []
            @ '', '' @ quoted [] @ '','' @ quoted [] @ '')'') \<longrightarrow>
      getUniqId element = ''1005200642'')
   \<and> (attr ''onclick'' element = Some (''fnView('' @ quoted arg @ rest) \<and> quote \<notin> set arg \<longrightarrow>
      getUniqId element = arg)
   \<and> (attr ''onclick'' element = Some handler \<and> \<not> has_fnView_call handler \<longrightarrow>
      getUniqId element = [])
   \<and> (attr ''onclick'' element = None \<longrightarrow> getUniqId element = [])"
proof (intro conjI impI)
  assume a: "attr ''onclick'' element =
      Some (''fnView('' @ quoted ''1005200642'' @ '', '' @ quoted ''admin'' @ '', '' @ quoted []
            @ '', '' @ quoted [] @ '','' @ quoted [] @ '')'')"
  have "quote \<notin> set ''1005200642''" by (simp add: quote_def)
  then have m: "fnView_match (''fnView('' @ quoted ''1005200642'' @ '', '' @ quoted ''admin'' @ '', '' @ quoted []
            @ '', '' @ quoted [] @ '','' @ quoted [] @ '')'') = Some ''1005200642''"
    by (rule fnView_match_call)
  show "getUniqId element = ''1005200642''"
    by (simp only: getUniqId_def a m option.case)
next
  assume a: "attr ''onclick'' element = Some (''fnView('' @ quoted arg @ rest) \<and> quote \<notin> set arg"
  then have a1: "attr ''onclick'' element = Some (''fnView('' @ quoted arg @ rest)"
    and a2: "quote \<notin> set arg"
    by blast+
  have m: "fnView_match (''fnView('' @ quoted arg @ rest) = Some arg"
    by (rule fnView_match_call [OF a2])
  show "getUniqId element = arg"
    by (simp only: getUniqId_def a1 m option.case)
next
  assume a: "attr ''onclick'' element = Some handler \<and> \<not> has_fnView_call handler"
  then have "fnView_match handler = None"
    using fnView_match_Some by (cases "fnView_match handler") auto
  with a show "getUniqId element = []"
    by (simp add: getUniqId_def)
next
  assume "attr ''onclick'' element = None"
  then show "getUniqId element = []"
    by (simp add: getUniqId_def)
qed

theorem getUniqId_fnView_witness:
  "getUniqId [Element ''a'' [(''href'', ''#none''),
                (''onclick'', ''fnView('' @ quoted ''1005200642'' @ '', '' @ quoted ''admin'' @ '', ''
                   @ quoted [] @ '', '' @ quoted [] @ '','' @ quoted [] @ '')'')] [TextNode ''First'']]
     = ''1005200642''
   \<and> getUniqId [Element ''a'' [(''onclick'', ''fnView('' @ quoted ''77'' @ '');return false;'')] []] = ''77''
   \<and> getUniqId [Element ''a'' [(''onclick'', ''return false;'')] []] = []
   \<and> getUniqId [Element ''a'' [(''href'', ''#none'')] []] = []"
proof -
  let ?e1 = "[Element ''a'' [(''href'', ''#none''),
                (''onclick'', ''fnView('' @ quoted ''1005200642'' @ '', '' @ quoted ''admin'' @ '', ''
                   @ quoted [] @ '', '' @ quoted [] @ '','' @ quoted [] @ '')'')] [TextNode ''First'']]"
  let ?e2 = "[Element ''a'' [(''onclick'', ''fnView('' @ quoted ''77'' @ '');return false;'')] []]"
  let ?e3 = "[Element ''a'' [(''onclick'', ''return false;'')] []]"
  let ?e4 = "[Element ''a'' [(''href'', ''#none'')] []]"
  have h1: "attr ''onclick'' ?e1 =
      Some (''fnView('' @ quoted ''1005200642'' @ '', '' @ quoted ''admin'' @ '', '' @ quoted []
            @ '', '' @ quoted [] @ '','' @ quoted [] @ '')'')"
    by (simp add: attr_def)
  have h2: "attr ''onclick'' ?e2 = Some (''fnView('' @ quoted ''77'' @ '');return false;'')
            \<and> quote \<notin> set ''77''"
    by (simp add: attr_def quote_def)
  have "fnView_match ''return false;'' = None"
    by (simp add: fnView_here_def)
  then have "\<not> has_fnView_call ''return false;''"
    using fnView_match_complete [of "''return false;''"] by auto
  then have h3: "attr ''onclick'' ?e3 = Some ''return false;'' \<and> \<not> has_fnView_call ''return false;''"
    by (simp add: attr_def)
  have h4: "attr ''onclick'' ?e4 = None"
    by (simp add: attr_def)
  show ?thesis
    using getUniqId_fnView [THEN conjunct1, rule_format, OF h1]
      getUniqId_fnView [THEN conjunct2, THEN conjunct1, rule_format, OF h2]
      getUniqId_fnView [THEN conjunct2, THEN conjunct2, THEN conjunct1, rule_format, OF h3]
      getUniqId_fnView [THEN conjunct2, THEN conjunct2, THEN conjunct2, rule_format, OF h4]
    by simp
qed

lemma nttSeq_here_Some:
  assumes "nttSeq_here s = Some g"
  shows "g \<noteq> [] \<and> list_all is_digit g \<and> has_nttSeq_param s"
proof -
  from assms have pre: "prefix ''nttSeq'' s"
    by (auto simp: nttSeq_here_def split: if_splits)
  then obtain rest where s: "s = ''nttSeq'' @ rest"
    by (auto simp: prefix_def)
  then have d: "drop 6 s = rest" by simp
  from assms pre obtain sep r where rest: "rest = sep # r" and sep: "sep = CHR ''='' \<or> sep = CHR '':''"
    unfolding nttSeq_here_def d by (auto split: list.splits if_splits)
  define r' where "r' = (case r of [] \<Rightarrow> r | q # t \<Rightarrow> if q = quote \<or> q = dquote then t else r)"
  from assms pre rest sep have g: "g = takeWhile is_digit r'" and ne: "takeWhile is_digit r' \<noteq> []"
    unfolding nttSeq_here_def d r'_def by (auto simp: Let_def split: if_splits)
  from ne obtain dg tl where r'c: "r' = dg # tl" and dg: "is_digit dg"
    by (cases r') (auto split: if_splits)
  have "\<exists>q. r = q @ r' \<and> (q = [] \<or> q = [quote] \<or> q = [dquote])"
    unfolding r'_def by (cases r) auto
  then obtain q where q: "r = q @ r'" "q = [] \<or> q = [quote] \<or> q = [dquote]" by blast
  have "s = [] @ ''nttSeq'' @ [sep] @ q @ [dg] @ tl"
    using s rest q(1) r'c by simp
  then have "has_nttSeq_param s"
    unfolding has_nttSeq_param_def using sep q(2) dg by blast
  moreover have "list_all is_digit g"
    unfolding g list_all_iff using set_takeWhileD [of _ is_digit r'] by blast
  ultimately show ?thesis using g ne by simp
qed

lemma has_nttSeq_param_Cons:
  assumes "has_nttSeq_param s"
  shows "has_nttSeq_param (c # s)"
proof -
  from assms obtain pre sep q d post where "s = pre @ ''nttSeq'' @ [sep] @ q @ [d] @ post"
     "sep = CHR ''='' \<or> sep = CHR '':''" "q = [] \<or> q = [quote] \<or> q = [dquote]" "is_digit d"
    unfolding has_nttSeq_param_def by blast
  then have "c # s = (c # pre) @ ''nttSeq'' @ [sep] @ q @ [d] @ post
     \<and> (sep = CHR ''='' \<or> sep = CHR '':'') \<and> (q = [] \<or> q = [quote] \<or> q = [dquote]) \<and> is_digit d"
    by simp
  then show ?thesis unfolding has_nttSeq_param_def by blast
qed

lemma nttSeq_match_Some:
  "nttSeq_match s = Some g \<Longrightarrow> g \<noteq> [] \<and> list_all is_digit g \<and> has_nttSeq_param s"
proof (induction s)
  case Nil
  then show ?case by simp
next
  case (Cons c s)
  show ?case
  proof (cases "nttSeq_here (c # s)")
    case None
    with Cons show ?thesis by (simp add: has_nttSeq_param_Cons)
  next
    case (Some g')
    with Cons.prems have "g' = g" by simp
    with Some show ?thesis using nttSeq_here_Some by blast
  qed
qed

lemma nttSeq_here_complete:
  assumes "sep = CHR ''='' \<or> sep = CHR '':''" and "q = [] \<or> q = [quote] \<or> q = [dquote]"
    and "is_digit d"
  shows "nttSeq_here (''nttSeq'' @ [sep] @ q @ [d] @ post) = Some (d # takeWhile is_digit post)"
proof -
  have nq: "d \<noteq> quote" "d \<noteq> dquote"
    using assms(3) by (auto simp: is_digit_def quote_def dquote_def)
  show ?thesis
    using assms nq by (auto simp: nttSeq_here_def Let_def)
qed

lemma nttSeq_match_complete:
  assumes "has_nttSeq_param s"
  shows "\<exists>g. nttSeq_match s = Some g"
proof -
  from assms obtain pre sep q d post where s: "s = pre @ ''nttSeq'' @ [sep] @ q @ [d] @ post"
     and c: "sep = CHR ''='' \<or> sep = CHR '':''" "q = [] \<or> q = [quote] \<or> q = [dquote]" "is_digit d"
    unfolding has_nttSeq_param_def by blast
  have "\<exists>g. nttSeq_match (pre @ ''nttSeq'' @ [sep] @ q @ [d] @ post) = Some g"
  proof (induction pre)
    case Nil
    have "nttSeq_match (''nttSeq'' @ [sep] @ q @ [d] @ post) = Some (d # takeWhile is_digit post)"
      using nttSeq_here_complete [OF c, of post] by simp
    then show ?case by simp
  next
    case (Cons a pre)
    then show ?case by (cases "nttSeq_here (a # pre @ ''nttSeq'' @ [sep] @ q @ [d] @ post)") auto
  qed
  with s show ?thesis by simp
qed

lemma takeWhile_Nil_append:
  "\<not> P c \<Longrightarrow> takeWhile P x = [] \<Longrightarrow> takeWhile P (x @ c # rest) = []"
  by (cases x) (auto split: if_splits)

lemma nttSeq_here_append_n:
  assumes "t \<noteq> []" and "nttSeq_here t = None"
  shows "nttSeq_here (t @ CHR ''n'' # rest) = None"
proof (cases "prefix ''nttSeq'' t")
  case True
  then obtain u where t: "t = ''nttSeq'' @ u" by (auto simp: prefix_def)
  have nd: "\<not> is_digit (CHR ''n'')" "CHR ''n'' \<noteq> quote" "CHR ''n'' \<noteq> dquote"
    by (simp_all add: is_digit_def quote_def dquote_def)
  show ?thesis
    using assms(2) nd unfolding t nttSeq_here_def
    by (auto simp: Let_def takeWhile_Nil_append split: list.splits if_splits)
next
  case False
  have "\<not> prefix ''nttSeq'' (t @ CHR ''n'' # rest)"
  proof
    assume "prefix ''nttSeq'' (t @ CHR ''n'' # rest)"
    with False obtain us where us: "''nttSeq'' = t @ us" "prefix us (CHR ''n'' # rest)"
      by (auto simp: prefix_append)
    show False
    proof (cases us)
      case Nil
      with us(1) False show False by simp
    next
      case (Cons a us')
      with us(2) have "a = CHR ''n''" by simp
      with us(1) Cons assms(1) obtain c t' where "t = c # t'" "''ttSeq'' = t' @ CHR ''n'' # us'"
        by (cases t) auto
      then have "CHR ''n'' \<in> set ''ttSeq''" by (metis in_set_conv_decomp)
      then show False by simp
    qed
  qed
  then show ?thesis by (simp add: nttSeq_here_def)
qed

lemma nttSeq_match_append_n:
  "nttSeq_match pre = None \<Longrightarrow>
   nttSeq_match (pre @ CHR ''n'' # rest) = nttSeq_match (CHR ''n'' # rest)"
proof (induction pre)
  case Nil
  then show ?case by simp
next
  case (Cons c pre)
  from Cons.prems have h: "nttSeq_here (c # pre) = None" and m: "nttSeq_match pre = None"
    by (auto split: option.splits)
  have "nttSeq_here ((c # pre) @ CHR ''n'' # rest) = None"
    by (rule nttSeq_here_append_n) (use h in simp_all)
  then show ?case using Cons.IH [OF m] by simp
qed

lemma nttSeq_match_in_context:
  assumes "\<not> has_nttSeq_param pre" and "q = [] \<or> q = [quote] \<or> q = [dquote]"
    and "post = [] \<or> \<not> is_digit (hd post)"
  shows "nttSeq_match (pre @ ''nttSeq='' @ q @ ''1005200644'' @ post) = Some ''1005200644''"
proof -
  have none: "nttSeq_match pre = None"
    using assms(1) nttSeq_match_Some by (cases "nttSeq_match pre") auto
  have tw: "takeWhile is_digit (''005200644'' @ post) = ''005200644''"
    using assms(3) by (cases post) (auto simp: is_digit_def)
  have "nttSeq_here (''nttSeq'' @ [CHR ''=''] @ q @ [CHR ''1''] @ (''005200644'' @ post))
        = Some (CHR ''1'' # takeWhile is_digit (''005200644'' @ post))"
    by (rule nttSeq_here_complete) (use assms(2) in \<open>simp_all add: is_digit_def\<close>)
  then have here: "nttSeq_here (CHR ''n'' # ''ttSeq='' @ q @ ''1005200644'' @ post) = Some ''1005200644''"
    unfolding tw by simp
  have "nttSeq_match (pre @ CHR ''n'' # (''ttSeq='' @ q @ ''1005200644'' @ post))
        = nttSeq_match (CHR ''n'' # (''ttSeq='' @ q @ ''1005200644'' @ post))"
    by (rule nttSeq_match_append_n [OF none])
  also have "\<dots> = Some ''1005200644''"
    using here by (simp del: append.simps)
  finally show ?thesis by simp
qed

text \<open>
  C5. \<open>extractNttSeq\<close> gives \<open>1005200644\<close> for \<^verbatim>\<open>nttSeq=1005200644\<close>,
  \<^verbatim>\<open>nttSeq='1005200644'\<close> and \<^verbatim>\<open>nttSeq="1005200644"\<close>, alone and inside a text in
  which no parameter of the pattern comes earlier and no digit follows the number. A text
  without a matching parameter gives the empty string; a text with one gives a non-empty
  run of digits.
\<close>

theorem extractNttSeq_styles:
  "extractNttSeq ''nttSeq=1005200644'' = ''1005200644''
   \<and> extractNttSeq (''nttSeq='' @ quoted ''1005200644'') = ''1005200644''
   \<and> extractNttSeq (''nttSeq='' @ [dquote] @ ''1005200644'' @ [dquote]) = ''1005200644''
   \<and> (\<not> has_nttSeq_param pre \<and> (q = [] \<or> q = [quote] \<or> q = [dquote])
        \<and> (post = [] \<or> \<not> is_digit (hd post)) \<longrightarrow>
      extractNttSeq (pre @ ''nttSeq='' @ q @ ''1005200644'' @ post) = ''1005200644'')
   \<and> (\<not> has_nttSeq_param page \<longrightarrow> extractNttSeq page = [])
   \<and> (has_nttSeq_param page \<longrightarrow> extractNttSeq page \<noteq> [] \<and> list_all is_digit (extractNttSeq page))"
proof (intro conjI impI)
  show "extractNttSeq ''nttSeq=1005200644'' = ''1005200644''"
    by (simp add: extractNttSeq_def nttSeq_here_def is_digit_def quote_def dquote_def)
  show "extractNttSeq (''nttSeq='' @ quoted ''1005200644'') = ''1005200644''"
    by (simp add: extractNttSeq_def nttSeq_here_def is_digit_def quoted_def quote_def dquote_def)
  show "extractNttSeq (''nttSeq='' @ [dquote] @ ''1005200644'' @ [dquote]) = ''1005200644''"
    by (simp add: extractNttSeq_def nttSeq_here_def is_digit_def quote_def dquote_def)
next
  assume "\<not> has_nttSeq_param pre \<and> (q = [] \<or> q = [quote] \<or> q = [dquote])
        \<and> (post = [] \<or> \<not> is_digit (hd post))"
  then have "nttSeq_match (pre @ ''nttSeq='' @ q @ ''1005200644'' @ post) = Some ''1005200644''"
    by (intro nttSeq_match_in_context) blast+
  then show "extractNttSeq (pre @ ''nttSeq='' @ q @ ''1005200644'' @ post) = ''1005200644''"
    by (simp only: extractNttSeq_def option.case)
next
  assume "\<not> has_nttSeq_param page"
  then have "nttSeq_match page = None"
    using nttSeq_match_Some by (cases "nttSeq_match page") auto
  then show "extractNttSeq page = []"
    by (simp add: extractNttSeq_def)
next
  assume h: "has_nttSeq_param page"
  then obtain g where g: "nttSeq_match page = Some g"
    using nttSeq_match_complete by blast
  then have e: "extractNttSeq page = g" by (simp add: extractNttSeq_def)
  from g have p: "g \<noteq> [] \<and> list_all is_digit g" using nttSeq_match_Some by blast
  from e p show "extractNttSeq page \<noteq> []" by simp
  from e p show "list_all is_digit (extractNttSeq page)" by simp
qed

theorem extractNttSeq_styles_witness:
  "extractNttSeq (''location.href = &pmode=detail&nttSeq='' @ quoted ''1005200644'' @ '';'') = ''1005200644''
   \<and> extractNttSeq ''<script>fnList(1);</script>'' = []
   \<and> extractNttSeq ''nttSeq:7'' \<noteq> []"
proof -
  have "nttSeq_match ''location.href = &pmode=detail&'' = None"
    by (simp add: nttSeq_here_def)
  then have "\<not> has_nttSeq_param ''location.href = &pmode=detail&''"
    using nttSeq_match_complete [of "''location.href = &pmode=detail&''"] by auto
  then have h1: "\<not> has_nttSeq_param ''location.href = &pmode=detail&'' \<and>
      ([quote] = [] \<or> [quote] = [quote] \<or> [quote] = [dquote]) \<and>
      (quote # '';'' = [] \<or> \<not> is_digit (hd (quote # '';'')))"
    by (simp add: is_digit_def quote_def)
  have "nttSeq_match ''<script>fnList(1);</script>'' = None"
    by (simp add: nttSeq_here_def)
  then have h2: "\<not> has_nttSeq_param ''<script>fnList(1);</script>''"
    using nttSeq_match_complete [of "''<script>fnList(1);</script>''"] by auto
  have "''nttSeq:7'' = [] @ ''nttSeq'' @ [CHR '':''] @ [] @ [CHR ''7''] @ [] \<and> is_digit (CHR ''7'')"
    by (simp add: is_digit_def)
  then have h3: "has_nttSeq_param ''nttSeq:7''"
    unfolding has_nttSeq_param_def by blast
  show ?thesis
    using extractNttSeq_styles [THEN conjunct2, THEN conjunct2, THEN conjunct2, THEN conjunct1,
        rule_format, OF h1]
      extractNttSeq_styles [THEN conjunct2, THEN conjunct2, THEN conjunct2, THEN conjunct2,
        THEN conjunct1, rule_format, OF h2]
      extractNttSeq_styles [THEN conjunct2, THEN conjunct2, THEN conjunct2, THEN conjunct2,
        THEN conjunct2, rule_format, OF h3]
    by (simp add: quoted_def)
qed

section \<open>The rows of a listing\<close>

lemma foldl_each_row:
  "foldl (each_row ext m b s) acc rows =
   acc @ map (\<lambda>row. row_post ext m b s (find_sel ''td'' [row]))
           (filter (\<lambda>row. find_sel ''td'' [row] \<noteq> []) rows)"
  by (induction rows arbitrary: acc) (simp_all add: each_row_def Let_def)

lemma parseYngogoList_posts:
  "parseYngogoList ext rnd net h m b s =
     (case net (list_request rnd m b s) of
        Rejected e \<Rightarrow> Inl e
      | Responded r \<Rightarrow>
          (case text_result r of
             Inl e \<Rightarrow> Inl e
           | Inr page \<Rightarrow>
               Inr (map (\<lambda>row. row_post ext m b s (find_sel ''td'' [row]))
                      (data_rows (load ext page)))))"
  by (simp add: parseYngogoList_def foldl_each_row data_rows_def split: net_outcome.splits sum.splits)

lemma uniqId_row_post:
  "uniqId (row_post ext m b s (find_sel ''td'' [row])) = getUniqId (title_anchor row)"
  by (simp add: row_post_def Let_def title_anchor_def)

lemma detailUrl_row_post:
  "detailUrl (row_post ext m b s (find_sel ''td'' [row])) =
   cleanUrl ext (BASE_URL @ ''/subList/'' @ m @ ''?pmode=detail&nttSeq='' @ getUniqId (title_anchor row)
                 @ ''&bbsSeq='' @ b @ ''&sitecntntsSeq='' @ s)"
  by (simp add: row_post_def Let_def title_anchor_def)

lemma getUniqId_no_call:
  "\<not> has_fnView_call (click_handler row) \<Longrightarrow> getUniqId (title_anchor row) = []"
  using fnView_match_Some [of "click_handler row"]
  by (cases "fnView_match (click_handler row)") (auto simp: getUniqId_def click_handler_def)

lemma list_page_responds:
  "list_page (list_request rnd m b s)
   = Responded \<lparr>status = 200, statusText = ''OK'', text_result = Inr ''<table>''\<rparr>"
  by (simp add: list_page_def net_status_def)

text \<open>
  C6. When the endpoint answers with a page, \<open>parseYngogoList\<close> returns one post for
  each selected row that has a \<open>td\<close> column and none for the others: for a page with
  four rows of which one has no \<open>td\<close> column it returns three posts.
\<close>

theorem parseYngogoList_skips_rows_without_columns:
  assumes "net (list_request rnd menuSeq bbsSeq sitecntntsSeq) = Responded r"
    and "text_result r = Inr page"
  shows "\<exists>posts. parseYngogoList ext rnd net unused menuSeq bbsSeq sitecntntsSeq = Inr posts
           \<and> length posts = length (data_rows (load ext page))
           \<and> (length (select_rows (load ext page)) = 4
               \<and> length (filter (\<lambda>row. find_sel ''td'' [row] = []) (select_rows (load ext page))) = 1
              \<longrightarrow> length posts = 3)"
proof -
  let ?rows = "select_rows (load ext page)"
  have "length (filter (\<lambda>row. find_sel ''td'' [row] \<noteq> []) ?rows)
        + length (filter (\<lambda>row. find_sel ''td'' [row] = []) ?rows) = length ?rows"
    using sum_length_filter_compl [of "\<lambda>row. find_sel ''td'' [row] \<noteq> []" ?rows] by simp
  then have "length ?rows = 4 \<and> length (filter (\<lambda>row. find_sel ''td'' [row] = []) ?rows) = 1
             \<longrightarrow> length (data_rows (load ext page)) = 3"
    by (simp add: data_rows_def)
  then show ?thesis
    using assms by (simp add: parseYngogoList_posts)
qed

theorem parseYngogoList_skips_rows_without_columns_witness:
  "\<exists>posts. parseYngogoList (example_ext keep_url (example_doc three_rows)) (3 / 10) list_page []
             ''217'' ''1'' ''9'' = Inr posts
           \<and> length posts = 3"
proof -
  let ?ext = "example_ext keep_url (example_doc three_rows)"
  have t: "text_result \<lparr>status = 200, statusText = ''OK'', text_result = Inr ''<table>''\<rparr> = Inr ''<table>''"
    by simp
  have four: "length (select_rows (load ?ext ''<table>'')) = 4
      \<and> length (filter (\<lambda>row. find_sel ''td'' [row] = []) (select_rows (load ?ext ''<table>''))) = 1"
    by code_simp
  show ?thesis
    using parseYngogoList_skips_rows_without_columns
        [where net = list_page and rnd = "3 / 10" and menuSeq = "''217''" and bbsSeq = "''1''" and sitecntntsSeq = "''9''" and unused = "[]" and ext = ?ext, OF list_page_responds t] four
    by blast
qed

text \<open>
  C10. When the endpoint answers with a page, the posts are those of the rows with a
  \<open>td\<close> column, one for each in document order, whatever their click handlers hold. A
  row whose handler has no matching call pattern still gives its post: the \<open>uniqId\<close> is
  empty and the detail URL is built with nothing after \<open>nttSeq=\<close>.
\<close>

theorem parseYngogoList_keeps_rows_without_identifier:
  assumes "net (list_request rnd menuSeq bbsSeq sitecntntsSeq) = Responded r"
    and "text_result r = Inr page"
  shows "parseYngogoList ext rnd net unused menuSeq bbsSeq sitecntntsSeq
         = Inr (map (\<lambda>row. row_post ext menuSeq bbsSeq sitecntntsSeq (find_sel ''td'' [row]))
                  (data_rows (load ext page)))
       \<and> (\<forall>row \<in> set (data_rows (load ext page)).
            \<not> has_fnView_call (click_handler row) \<longrightarrow>
              uniqId (row_post ext menuSeq bbsSeq sitecntntsSeq (find_sel ''td'' [row])) = []
              \<and> detailUrl (row_post ext menuSeq bbsSeq sitecntntsSeq (find_sel ''td'' [row]))
                = cleanUrl ext (BASE_URL @ ''/subList/'' @ menuSeq @ ''?pmode=detail&nttSeq=&bbsSeq=''
                                @ bbsSeq @ ''&sitecntntsSeq='' @ sitecntntsSeq))"
proof (intro conjI ballI impI)
  show "parseYngogoList ext rnd net unused menuSeq bbsSeq sitecntntsSeq
         = Inr (map (\<lambda>row. row_post ext menuSeq bbsSeq sitecntntsSeq (find_sel ''td'' [row]))
                  (data_rows (load ext page)))"
    using assms by (simp add: parseYngogoList_posts)
next
  fix row assume "\<not> has_fnView_call (click_handler row)"
  then have e: "getUniqId (title_anchor row) = []" by (rule getUniqId_no_call)
  show "uniqId (row_post ext menuSeq bbsSeq sitecntntsSeq (find_sel ''td'' [row])) = []"
    by (simp add: uniqId_row_post e)
  show "detailUrl (row_post ext menuSeq bbsSeq sitecntntsSeq (find_sel ''td'' [row]))
        = cleanUrl ext (BASE_URL @ ''/subList/'' @ menuSeq @ ''?pmode=detail&nttSeq=&bbsSeq=''
                        @ bbsSeq @ ''&sitecntntsSeq='' @ sitecntntsSeq)"
    by (simp add: detailUrl_row_post e)
qed

theorem parseYngogoList_keeps_rows_without_identifier_witness:
  "map uniqId (map (\<lambda>row. row_post (example_ext keep_url (example_doc [first_row, plain_row]))
                              ''217'' ''1'' ''9'' (find_sel ''td'' [row])) [first_row, plain_row])
     = [''1005200642'', []]
   \<and> detailUrl (row_post (example_ext keep_url (example_doc [first_row, plain_row])) ''217'' ''1'' ''9''
                  (find_sel ''td'' [plain_row]))
     = ''http://www.yngogo.or.kr/subList/217?pmode=detail&nttSeq=&bbsSeq=1&sitecntntsSeq=9''
   \<and> parseYngogoList (example_ext keep_url (example_doc [first_row, plain_row])) (3 / 10) list_page []
        ''217'' ''1'' ''9''
     = Inr (map (\<lambda>row. row_post (example_ext keep_url (example_doc [first_row, plain_row]))
                          ''217'' ''1'' ''9'' (find_sel ''td'' [row])) [first_row, plain_row])"
proof -
  let ?ext = "example_ext keep_url (example_doc [first_row, plain_row])"
  have t: "text_result \<lparr>status = 200, statusText = ''OK'', text_result = Inr ''<table>''\<rparr> = Inr ''<table>''"
    by simp
  have rows: "data_rows (load ?ext ''<table>'') = [first_row, plain_row]"
    by code_simp
  have "fnView_match (click_handler plain_row) = None"
    by code_simp
  then have none: "\<not> has_fnView_call (click_handler plain_row)"
    using fnView_match_complete [of "click_handler plain_row"] by auto
  have first: "uniqId (row_post ?ext ''217'' ''1'' ''9'' (find_sel ''td'' [first_row])) = ''1005200642''"
    by code_simp
  have url: "cleanUrl ?ext (BASE_URL @ ''/subList/'' @ ''217'' @ ''?pmode=detail&nttSeq=&bbsSeq=''
                            @ ''1'' @ ''&sitecntntsSeq='' @ ''9'')
             = ''http://www.yngogo.or.kr/subList/217?pmode=detail&nttSeq=&bbsSeq=1&sitecntntsSeq=9''"
    by (simp add: example_ext_def keep_url_def BASE_URL_def)
  show ?thesis
    using parseYngogoList_keeps_rows_without_identifier
        [where net = list_page and rnd = "3 / 10" and menuSeq = "''217''" and bbsSeq = "''1''" and sitecntntsSeq = "''9''" and unused = "[]" and ext = ?ext, OF list_page_responds t]
      none first url
    unfolding rows by simp
qed







end
